theory Spec2Isabelle
  imports Main
begin

section \<open>Values exchanged with the collaborators of \<open>dataloader.ts\<close>\<close>

text \<open>
  \<open>GitRepo\<close>, \<open>GitLogEntry\<close> and \<open>GitService\<close> are declared in \<open>gitService.ts\<close>, \<open>Uri\<close>
  in the editor's API. The data loader reads only \<open>repo.root\<close> and \<open>file.fsPath\<close>, and never
  looks inside a log entry, so a repository is a record with its root path, a \<open>Uri\<close> a record
  with its path, and a log entry a value of the type parameter \<open>'e\<close>.
\<close>

record GitRepo =
  root :: string

record Uri =
  fsPath :: string

text \<open>
  A promise that rejects. \<open>GitError\<close> is a failure of the live data source, \<open>TypeError\<close> is
  what JavaScript throws when a property of \<open>undefined\<close> is read.
\<close>

datatype error = GitError string | TypeError

text \<open>The calls the data loader makes on the live data source, with their arguments.\<close>

datatype request =
    GetLogEntries GitRepo bool int int string "bool option" "Uri option" "nat option" "string option"
  | GetCommitsCount GitRepo string "string option"
  | GetCurrentBranch GitRepo
  | GetCommits GitRepo "string option"

section \<open>JavaScript built-ins used by the data loader\<close>

text \<open>
  \<open>Array.prototype.slice(start, end)\<close> on integer arguments: a negative index counts from
  the end, both ends are clamped to the array, an empty range gives the empty array.
\<close>

definition slice :: "'a list \<Rightarrow> int \<Rightarrow> int \<Rightarrow> 'a list" where
  "slice xs start end =
     (let len = int (length xs);
          k = (if start < 0 then max (len + start) 0 else min start len);
          final = (if end < 0 then max (len + end) 0 else min end len)
      in take (nat (final - k)) (drop (nat k) xs))"

text \<open>\<open>Array.prototype.indexOf\<close>: the first position of the element, \<open>-1\<close> when absent.\<close>

fun indexOf :: "'a list \<Rightarrow> 'a \<Rightarrow> int" where
  "indexOf [] x = - 1"
| "indexOf (y # ys) x =
     (if y = x then 0 else (let i = indexOf ys x in if i < 0 then - 1 else i + 1))"

text \<open>
  The template literal \<open>${line}\<close> of a line number: its decimal digits (line numbers are
  natural numbers far below the range where JavaScript switches to exponent notation).
\<close>

definition digit :: "nat \<Rightarrow> char" where
  "digit d = ''0123456789'' ! d"

fun string_of_nat :: "nat \<Rightarrow> string" where
  "string_of_nat n =
     (if n < 10 then [digit n] else string_of_nat (n div 10) @ [digit (n mod 10)])"

declare string_of_nat.simps [simp del]

section \<open>The LRU map\<close>

text \<open>
  The \<open>LRUCache\<close> class comes from the package \<open>lru-cache\<close>, not from this repository;
  its operations are modelled from the specification. Section 4.2 gives their behaviour:
  \<open>get\<close> returns the value or nothing and promotes the key to most recently used; \<open>set\<close>
  stores the value as most recently used and, when the capacity would be exceeded, silently
  evicts the least recently used entries; \<open>clear\<close> empties the map.
\<close>

text \<open>Modelled from the spec: the capacity and the entries, most recently used first.\<close>

record ('k, 'v) LRUCache =
  lru_max :: nat
  lru_entries :: "('k \<times> 'v) list"

text \<open>Modelled from the spec: \<open>new LRUCache({ max: m })\<close>, an empty map of capacity \<open>m\<close>.\<close>

definition lru_new :: "nat \<Rightarrow> ('k, 'v) LRUCache" where
  "lru_new m = \<lparr>lru_max = m, lru_entries = []\<rparr>"

text \<open>Modelled from the spec: the value stored under a key, read without promoting the key.\<close>

definition lru_peek :: "('k, 'v) LRUCache \<Rightarrow> 'k \<Rightarrow> 'v option" where
  "lru_peek c k = map_of (lru_entries c) k"

text \<open>Modelled from the spec: \<open>get\<close>, which promotes a key it finds.\<close>

definition lru_get :: "('k, 'v) LRUCache \<Rightarrow> 'k \<Rightarrow> 'v option \<times> ('k, 'v) LRUCache" where
  "lru_get c k =
     (case map_of (lru_entries c) k of
        None \<Rightarrow> (None, c)
      | Some v \<Rightarrow> (Some v, c\<lparr>lru_entries := (k, v) # filter (\<lambda>p. fst p \<noteq> k) (lru_entries c)\<rparr>))"

text \<open>Modelled from the spec: \<open>set\<close>, which evicts from the least recently used end.\<close>

definition lru_set :: "('k, 'v) LRUCache \<Rightarrow> 'k \<Rightarrow> 'v \<Rightarrow> ('k, 'v) LRUCache" where
  "lru_set c k v =
     c\<lparr>lru_entries := take (lru_max c) ((k, v) # filter (\<lambda>p. fst p \<noteq> k) (lru_entries c))\<rparr>"

text \<open>Modelled from the spec: \<open>clear\<close>.\<close>

definition lru_clear :: "('k, 'v) LRUCache \<Rightarrow> ('k, 'v) LRUCache" where
  "lru_clear c = c\<lparr>lru_entries := []\<rparr>"

section \<open>Class \<open>Cache\<close>\<close>

definition logEntriesCount :: int where
  "logEntriesCount = 1200"

record 'e Cache =
  branch :: string
  commits :: "string list"
  logEntries :: "(string, 'e list) LRUCache"
  counts :: "(string, int) LRUCache"

definition new_Cache :: "'e Cache" where
  "new_Cache = \<lparr>branch = [], commits = [], logEntries = lru_new 5, counts = lru_new 100\<rparr>"

definition countKey :: "string \<Rightarrow> string \<Rightarrow> string" where
  "countKey br author = br @ '','' @ author"

text \<open>
  \<open>stash ? '1' : ''\<close> is \<open>'1'\<close> only for a flag that is present and true; \<open>x ?? ''\<close> is
  the empty string only for an omitted \<open>x\<close>.
\<close>

definition logEntryKey ::
  "string \<Rightarrow> bool option \<Rightarrow> string option \<Rightarrow> nat option \<Rightarrow> string option \<Rightarrow> string" where
  "logEntryKey br stash file line author =
     br @ '','' @ (if stash = Some True then ''1'' else [])
        @ '','' @ (case file of None \<Rightarrow> [] | Some f \<Rightarrow> f)
        @ '','' @ (case line of None \<Rightarrow> [] | Some n \<Rightarrow> string_of_nat n)
        @ '','' @ (case author of None \<Rightarrow> [] | Some a \<Rightarrow> a)"

definition clear :: "'e Cache \<Rightarrow> 'e Cache" where
  "clear c = c\<lparr>branch := [], commits := [],
               logEntries := lru_clear (logEntries c), counts := lru_clear (counts c)\<rparr>"

section \<open>Class \<open>Dataloader\<close>\<close>

text \<open>
  The fields of the class, without the leading underscore. \<open>fsWatcher\<close> holds the repository
  that the callbacks of the live watcher were created for, \<open>updateDelay\<close> the repository
  captured by the callback of the debounce timer while that timer is armed (\<open>None\<close> once it
  has fired or was cleared).
\<close>

record 'e Dataloader =
  cache :: "'e Cache"
  fsWatcher :: "GitRepo option"
  repo :: "GitRepo option"
  updating :: bool
  updateDelay :: "GitRepo option"

definition new_Dataloader :: "'e Dataloader" where
  "new_Dataloader =
     \<lparr>cache = new_Cache, fsWatcher = None, repo = None, updating = False, updateDelay = None\<rparr>"

text \<open>\<open>_useCache\<close>: \<open>rt\<close> is the root path the caller passes.\<close>

definition useCache :: "'e Dataloader \<Rightarrow> string \<Rightarrow> bool" where
  "useCache s rt =
     (if Some rt \<noteq> map_option root (repo s) then False
      else if updating s then False
      else True)"

text \<open>
  \<open>_updateCaches\<close>, the part that runs at once: the flag is raised, the armed timer is
  cleared and a new one is armed whose callback has captured \<open>r\<close>.
\<close>

definition updateCaches :: "'e Dataloader \<Rightarrow> GitRepo \<Rightarrow> 'e Dataloader" where
  "updateCaches s r = s\<lparr>updating := True, updateDelay := Some r\<rparr>"

text \<open>
  The callback of the timer, from the point where its four fetches have settled. The
  callback touches no field before that point. \<open>Inl\<close> is a rejected fetch: the callback's
  own promise rejects and none of its remaining statements runs. Otherwise the answers are
  the current branch (possibly absent), the commits, the count and the first page.
\<close>

definition updateCaches_done ::
  "'e Dataloader \<Rightarrow> GitRepo \<Rightarrow> error + (string option \<times> string list \<times> int \<times> 'e list)
     \<Rightarrow> 'e Dataloader" where
  "updateCaches_done s r answer =
     (case answer of
        Inl e \<Rightarrow> s
      | Inr (live_branch, cs, n, logs) \<Rightarrow>
          (let br = (case live_branch of None \<Rightarrow> [] | Some b \<Rightarrow> b) in
           if map_option root (repo s) \<noteq> Some (root r) then s
           else s\<lparr>cache := (cache s)
                     \<lparr>branch := br, commits := cs,
                      counts := lru_set (counts (cache s)) (countKey br []) n,
                      logEntries := lru_set (logEntries (cache s))
                                      (logEntryKey br None None None None) logs\<rparr>,
                   updating := False\<rparr>))"

definition updateRepo :: "'e Dataloader \<Rightarrow> GitRepo \<Rightarrow> 'e Dataloader" where
  "updateRepo s r =
     (if map_option root (repo s) = Some (root r) then s
      else updateCaches
             (s\<lparr>repo := Some r, updateDelay := None, cache := clear (cache s),
                updating := False, fsWatcher := Some r\<rparr>) r)"

section \<open>The query gate\<close>

text \<open>
  Every operation of the gate is an \<open>async\<close> function. What it does up to its first
  \<open>await\<close> is one of three things: it returns a value without calling the live data source
  (\<open>Return\<close>); it hands the call to the live data source and the caller gets that answer,
  with no statement that touches a field running afterwards (\<open>Delegate\<close>); or it awaits the
  live data source and resumes later, under the cache key it computed (\<open>Fetch\<close>). The state
  is returned with the operation's effect on it: a \<open>get\<close> on an LRU map promotes the key.
\<close>

datatype 'a gate = Return 'a | Delegate request | Fetch request string

text \<open>
  \<open>getLogEntries\<close> up to line 116. TypeScript's parameter type \<open>GitRepo\<close> is erased when
  the program runs; with an absent repository the first statement reads \<open>repo.root\<close> of
  \<open>undefined\<close> and the promise rejects with a \<open>TypeError\<close>.
\<close>

definition getLogEntries ::
  "'e Dataloader \<Rightarrow> GitRepo option \<Rightarrow> bool \<Rightarrow> int \<Rightarrow> int \<Rightarrow> string \<Rightarrow> bool option
     \<Rightarrow> Uri option \<Rightarrow> nat option \<Rightarrow> string option
     \<Rightarrow> (error + 'e list gate) \<times> 'e Dataloader" where
  "getLogEntries s rp express start count br isStash file line author =
     (case rp of
        None \<Rightarrow> (Inl TypeError, s)
      | Some r \<Rightarrow>
          (let req = GetLogEntries r express start count br isStash file line author in
           if \<not> useCache s (root r) then (Inr (Delegate req), s)
           else
             (let key = logEntryKey br (Some (case isStash of None \<Rightarrow> False | Some b \<Rightarrow> b))
                          (map_option fsPath file) line author;
                  (hit, les) = lru_get (logEntries (cache s)) key;
                  s' = s\<lparr>cache := (cache s)\<lparr>logEntries := les\<rparr>\<rparr>
              in case hit of
                   None \<Rightarrow> (Inr (Fetch req key), s')
                 | Some c \<Rightarrow>
                     if int (length c) < logEntriesCount
                     then (Inr (Return (slice c start (start + count))), s')
                     else if start + count < int (length c)
                     then (Inr (Return (slice c start (start + count))), s')
                     else (Inr (Fetch req key), s'))))"

text \<open>
  \<open>getLogEntries\<close> from line 118, once the awaited fetch has answered with \<open>entries\<close>: the
  value returned to the caller, the state, and whether the background fetch of the first
  \<open>logEntriesCount\<close> entries was scheduled with \<open>setTimeout\<close>.
\<close>

definition getLogEntries_resume ::
  "'e Dataloader \<Rightarrow> string \<Rightarrow> int \<Rightarrow> int \<Rightarrow> 'e list \<Rightarrow> 'e list \<times> 'e Dataloader \<times> bool" where
  "getLogEntries_resume s key start count entries =
     (if start = 0 then
        (if count \<ge> logEntriesCount \<and> int (length entries) < logEntriesCount
         then (entries,
               s\<lparr>cache := (cache s)\<lparr>logEntries := lru_set (logEntries (cache s)) key entries\<rparr>\<rparr>,
               False)
         else if count < logEntriesCount then (entries, s, True)
         else (entries, s, False))
      else (entries, s, False))"

text \<open>
  The callback scheduled at line 126, from the point where its fetch has answered. A
  rejected fetch rejects the callback's promise and nothing is stored.
\<close>

definition getLogEntries_warm :: "'e Dataloader \<Rightarrow> string \<Rightarrow> error + 'e list \<Rightarrow> 'e Dataloader" where
  "getLogEntries_warm s key answer =
     (case answer of
        Inl e \<Rightarrow> s
      | Inr cacheEntries \<Rightarrow>
          s\<lparr>cache := (cache s)\<lparr>logEntries := lru_set (logEntries (cache s)) key cacheEntries\<rparr>\<rparr>)"

text \<open>
  \<open>getCommitsCount\<close> up to line 164. \<open>if (count)\<close> is true for a number that is present and
  not zero.
\<close>

definition getCommitsCount ::
  "'e Dataloader \<Rightarrow> GitRepo option \<Rightarrow> string \<Rightarrow> string option
     \<Rightarrow> (error + int gate) \<times> 'e Dataloader" where
  "getCommitsCount s rp br author =
     (case rp of
        None \<Rightarrow> (Inl TypeError, s)
      | Some r \<Rightarrow>
          (let req = GetCommitsCount r br author in
           if \<not> useCache s (root r) then (Inr (Delegate req), s)
           else
             (let key = countKey br (case author of None \<Rightarrow> [] | Some a \<Rightarrow> a);
                  (hit, cs) = lru_get (counts (cache s)) key;
                  s' = s\<lparr>cache := (cache s)\<lparr>counts := cs\<rparr>\<rparr>
              in case hit of
                   None \<Rightarrow> (Inr (Fetch req key), s')
                 | Some c \<Rightarrow> if c \<noteq> 0 then (Inr (Return c), s') else (Inr (Fetch req key), s'))))"

text \<open>\<open>getCommitsCount\<close> from line 165, once the awaited fetch has answered.\<close>

definition getCommitsCount_resume :: "'e Dataloader \<Rightarrow> string \<Rightarrow> int \<Rightarrow> int \<times> 'e Dataloader" where
  "getCommitsCount_resume s key result =
     (result, s\<lparr>cache := (cache s)\<lparr>counts := lru_set (counts (cache s)) key result\<rparr>\<rparr>)"

text \<open>
  \<open>getCurrentBranch\<close>. When it delegates, the caller gets \<open>getCurrentBranch_live\<close> of the
  live answer (the \<open>?? ''\<close> of line 174).
\<close>

definition getCurrentBranch :: "'e Dataloader \<Rightarrow> GitRepo option \<Rightarrow> string gate" where
  "getCurrentBranch s rp =
     (case rp of
        None \<Rightarrow> Return []
      | Some r \<Rightarrow>
          if useCache s (root r) then Return (branch (cache s)) else Delegate (GetCurrentBranch r))"

definition getCurrentBranch_live :: "string option \<Rightarrow> string" where
  "getCurrentBranch_live answer = (case answer of None \<Rightarrow> [] | Some b \<Rightarrow> b)"

text \<open>
  The three neighbour operations share their first line: the commit list is the cached one
  or the live answer. The \<open>_of\<close> functions are their last two lines, applied to that list;
  when the operation delegates, the caller gets the \<open>_of\<close> function of the live answer.
  The index read is in range under the guard, as in the source.
\<close>

definition getNextCommit_of :: "string list \<Rightarrow> string \<Rightarrow> string" where
  "getNextCommit_of cs ref =
     (let index = indexOf cs ref in if index > 0 then cs ! nat (index - 1) else [])"

definition getPreviousCommit_of :: "string list \<Rightarrow> string \<Rightarrow> string" where
  "getPreviousCommit_of cs ref =
     (let index = indexOf cs ref
      in if index \<ge> 0 \<and> index + 1 < int (length cs) then cs ! nat (index + 1) else [])"

definition hasNeighborCommits_of :: "string list \<Rightarrow> string \<Rightarrow> bool \<times> bool" where
  "hasNeighborCommits_of cs ref =
     (let index = indexOf cs ref
      in (index \<ge> 0 \<and> index + 1 < int (length cs), index > 0))"

definition getNextCommit :: "'e Dataloader \<Rightarrow> GitRepo option \<Rightarrow> string \<Rightarrow> string gate" where
  "getNextCommit s rp ref =
     (case rp of
        None \<Rightarrow> Return []
      | Some r \<Rightarrow>
          if useCache s (root r) then Return (getNextCommit_of (commits (cache s)) ref)
          else Delegate (GetCommits r None))"

definition getPreviousCommit :: "'e Dataloader \<Rightarrow> GitRepo option \<Rightarrow> string \<Rightarrow> string gate" where
  "getPreviousCommit s rp ref =
     (case rp of
        None \<Rightarrow> Return []
      | Some r \<Rightarrow>
          if useCache s (root r) then Return (getPreviousCommit_of (commits (cache s)) ref)
          else Delegate (GetCommits r None))"

definition hasNeighborCommits ::
  "'e Dataloader \<Rightarrow> GitRepo option \<Rightarrow> string \<Rightarrow> (bool \<times> bool) gate" where
  "hasNeighborCommits s rp ref =
     (case rp of
        None \<Rightarrow> Return (False, False)
      | Some r \<Rightarrow>
          if useCache s (root r) then Return (hasNeighborCommits_of (commits (cache s)) ref)
          else Delegate (GetCommits r None))"

section \<open>Executions\<close>

text \<open>
  JavaScript runs one callback at a time; an \<open>async\<close> function gives way at each \<open>await\<close>
  and at each timer. An execution is therefore a sequence of events, each of which runs one
  piece of the code above to its next suspension point. Between the pieces the suspended
  work is held by the run time, here as a list of tasks. Each task names the repository
  whose data its fetch reads.
\<close>

datatype task =
    Reload GitRepo
  | Warm GitRepo string
  | LogResume GitRepo string int int
  | CountResume GitRepo string

record 'e System =
  loader :: "'e Dataloader"
  inflight :: "task list"

definition init :: "'e System" where
  "init = \<lparr>loader = new_Dataloader, inflight = []\<rparr>"

text \<open>
  \<open>Attach\<close> is a call of \<open>updateRepo\<close>; \<open>FsNotify\<close> a notification of the live watcher, whose
  callback calls \<open>_updateCaches\<close> with the repository it captured; \<open>TimerFires\<close> the expiry
  of the armed debounce timer, which starts the four fetches; \<open>ReloadSettles\<close> their
  answer. \<open>CallLogEntries\<close> and \<open>CallCommitsCount\<close> are calls of the two operations that can
  store into the cache, \<open>LogEntriesSettles\<close> and \<open>CommitsCountSettles\<close> the answers to their
  awaited fetches (a rejection goes to the caller), \<open>WarmSettles\<close> the answer to the
  background fetch.
\<close>

datatype 'e event =
    Attach GitRepo
  | FsNotify
  | TimerFires
  | ReloadSettles GitRepo "error + (string option \<times> string list \<times> int \<times> 'e list)"
  | CallLogEntries GitRepo bool int int string "bool option" "Uri option" "nat option"
      "string option"
  | LogEntriesSettles GitRepo string int int "error + 'e list"
  | WarmSettles GitRepo string "error + 'e list"
  | CallCommitsCount GitRepo string "string option"
  | CommitsCountSettles GitRepo string "error + int"

text \<open>An event that has nothing to run (no watcher, no armed timer, no such task) changes nothing.\<close>

fun step :: "'e System \<Rightarrow> 'e event \<Rightarrow> 'e System" where
  "step sys (Attach r) = sys\<lparr>loader := updateRepo (loader sys) r\<rparr>"
| "step sys FsNotify =
     (case fsWatcher (loader sys) of
        None \<Rightarrow> sys
      | Some r \<Rightarrow> sys\<lparr>loader := updateCaches (loader sys) r\<rparr>)"
| "step sys TimerFires =
     (case updateDelay (loader sys) of
        None \<Rightarrow> sys
      | Some r \<Rightarrow> sys\<lparr>loader := (loader sys)\<lparr>updateDelay := None\<rparr>,
                     inflight := Reload r # inflight sys\<rparr>)"
| "step sys (ReloadSettles r answer) =
     (if Reload r \<in> set (inflight sys)
      then sys\<lparr>loader := updateCaches_done (loader sys) r answer,
               inflight := remove1 (Reload r) (inflight sys)\<rparr>
      else sys)"
| "step sys (CallLogEntries r express start count br isStash file line author) =
     (let (out, s') = getLogEntries (loader sys) (Some r) express start count br isStash file
                        line author
      in case out of
           Inr (Fetch req key) \<Rightarrow>
             sys\<lparr>loader := s', inflight := LogResume r key start count # inflight sys\<rparr>
         | _ \<Rightarrow> sys\<lparr>loader := s'\<rparr>)"
| "step sys (LogEntriesSettles r key start count answer) =
     (if LogResume r key start count \<in> set (inflight sys)
      then (let rest = remove1 (LogResume r key start count) (inflight sys) in
            case answer of
              Inl e \<Rightarrow> sys\<lparr>inflight := rest\<rparr>
            | Inr entries \<Rightarrow>
                (let (res, s', warm) = getLogEntries_resume (loader sys) key start count entries
                 in sys\<lparr>loader := s',
                        inflight := (if warm then Warm r key # rest else rest)\<rparr>))
      else sys)"
| "step sys (WarmSettles r key answer) =
     (if Warm r key \<in> set (inflight sys)
      then sys\<lparr>loader := getLogEntries_warm (loader sys) key answer,
               inflight := remove1 (Warm r key) (inflight sys)\<rparr>
      else sys)"
| "step sys (CallCommitsCount r br author) =
     (let (out, s') = getCommitsCount (loader sys) (Some r) br author
      in case out of
           Inr (Fetch req key) \<Rightarrow> sys\<lparr>loader := s', inflight := CountResume r key # inflight sys\<rparr>
         | _ \<Rightarrow> sys\<lparr>loader := s'\<rparr>)"
| "step sys (CommitsCountSettles r key answer) =
     (if CountResume r key \<in> set (inflight sys)
      then (let rest = remove1 (CountResume r key) (inflight sys) in
            case answer of
              Inl e \<Rightarrow> sys\<lparr>inflight := rest\<rparr>
            | Inr result \<Rightarrow>
                sys\<lparr>loader := snd (getCommitsCount_resume (loader sys) key result),
                    inflight := rest\<rparr>)
      else sys)"

definition run :: "'e System \<Rightarrow> 'e event list \<Rightarrow> 'e System" where
  "run sys evs = foldl step sys evs"

text \<open>
  The event is the successful answer to a bulk reload that was started for a repository
  with root path \<open>rt\<close>.
\<close>

definition reload_succeeds_for :: "string \<Rightarrow> 'e event \<Rightarrow> bool" where
  "reload_succeeds_for rt ev =
     (case ev of
        ReloadSettles r answer \<Rightarrow> (case answer of Inl e \<Rightarrow> False | Inr a \<Rightarrow> root r = rt)
      | _ \<Rightarrow> False)"



section \<open>Unfolding the model\<close>

lemmas exec_defs = run_def init_def new_Dataloader_def new_Cache_def lru_new_def lru_get_def
  lru_set_def lru_clear_def lru_peek_def clear_def useCache_def updateCaches_def
  updateCaches_done_def updateRepo_def countKey_def logEntryKey_def logEntriesCount_def
  getLogEntries_def getLogEntries_resume_def getLogEntries_warm_def getCommitsCount_def
  getCommitsCount_resume_def

section \<open>A reload that settles for another repository\<close>




section \<open>An absent repository\<close>

text \<open>
  Claim C5, as stated, fails: \<open>getLogEntries\<close> and \<open>getCommitsCount\<close> declare their
  repository parameter as required and read \<open>repo.root\<close> first, so a call without a
  repository does not return an empty default, it is rejected with a \<open>TypeError\<close>.
\<close>

theorem absent_repo_fails_counterexample:
  "fst (getLogEntries new_Dataloader None False 0 10 ''main'' None None None None)
     = Inl TypeError
   \<and> fst (getCommitsCount new_Dataloader None ''main'' None) = Inl TypeError"
  by (simp add: getLogEntries_def getCommitsCount_def)

text \<open>
  Claim C5, amended. The four operations whose repository parameter is optional return their
  default without calling the live data source when the repository is absent:
  \<open>getCurrentBranch\<close>, \<open>getNextCommit\<close> and \<open>getPreviousCommit\<close> the empty string,
  \<open>hasNeighborCommits\<close> the pair \<open>(false, false)\<close>.
\<close>

theorem absent_repo_defaults:
  "getCurrentBranch s None = Return []
   \<and> getNextCommit s None ref = Return []
   \<and> getPreviousCommit s None ref = Return []
   \<and> hasNeighborCommits s None ref = Return (False, False)"
  by (simp add: getCurrentBranch_def getNextCommit_def getPreviousCommit_def
      hasNeighborCommits_def)

section \<open>Neighbour commits\<close>

lemmas neighbor_defs = getNextCommit_def getPreviousCommit_def hasNeighborCommits_def
  getNextCommit_of_def getPreviousCommit_of_def hasNeighborCommits_of_def

text \<open>
  Claim C9, as stated, fails in its second half. With the list \<open>[c3, c2, c1, c0]\<close>, newest
  first, \<open>getPreviousCommit\<close> reads the following index, so for the newest commit \<open>c3\<close> it
  returns \<open>c2\<close>, not the empty string; \<open>getNextCommit\<close> reads the preceding index, so for
  the oldest commit \<open>c0\<close> it returns \<open>c1\<close>. This holds on the cached list and on a live
  answer alike.
\<close>

theorem neighbor_lookup_counterexample:
  "getPreviousCommit
     (loader (run init [Attach \<lparr>root = ''/a''\<rparr>, TimerFires,
        ReloadSettles \<lparr>root = ''/a''\<rparr>
          (Inr (Some ''main'', [''c3'', ''c2'', ''c1'', ''c0''], 4, [3, 2, 1, 0::nat]))]))
     (Some \<lparr>root = ''/a''\<rparr>) ''c3'' = Return ''c2''
   \<and> getNextCommit
     (loader (run init [Attach \<lparr>root = ''/a''\<rparr>, TimerFires,
        ReloadSettles \<lparr>root = ''/a''\<rparr>
          (Inr (Some ''main'', [''c3'', ''c2'', ''c1'', ''c0''], 4, [3, 2, 1, 0::nat]))]))
     (Some \<lparr>root = ''/a''\<rparr>) ''c0'' = Return ''c1''
   \<and> getPreviousCommit_of [''c3'', ''c2'', ''c1'', ''c0''] ''c3'' = ''c2''
   \<and> getNextCommit_of [''c3'', ''c2'', ''c1'', ''c0''] ''c0'' = ''c1''"
  by (simp add: exec_defs neighbor_defs)

text \<open>
  Claim C9, amended. With four different commits \<open>[c3, c2, c1, c0]\<close>, newest first, as the
  cached list of a usable cache: for \<open>c2\<close> the next commit is \<open>c3\<close> and the previous one
  \<open>c1\<close>; for the newest commit \<open>c3\<close> the next commit is the empty string (and the previous
  one \<open>c2\<close>); for the oldest commit \<open>c0\<close> the previous commit is the empty string (and the
  next one \<open>c1\<close>); for a \<open>ref\<close> that is not in the list both are the empty string and
  \<open>hasNeighborCommits\<close> is \<open>(false, false)\<close>. The same values come out of the last two
  lines of each operation on a live answer \<open>[c3, c2, c1, c0]\<close>.
\<close>

theorem neighbor_lookup:
  assumes "distinct [c3, c2, c1, c0]" and "x \<notin> set [c3, c2, c1, c0]"
    and "useCache s (root r)" and "commits (cache s) = [c3, c2, c1, c0]"
  shows "getNextCommit s (Some r) c2 = Return c3
       \<and> getPreviousCommit s (Some r) c2 = Return c1
       \<and> getNextCommit s (Some r) c3 = Return []
       \<and> getPreviousCommit s (Some r) c3 = Return c2
       \<and> getPreviousCommit s (Some r) c0 = Return []
       \<and> getNextCommit s (Some r) c0 = Return c1
       \<and> getNextCommit s (Some r) x = Return []
       \<and> getPreviousCommit s (Some r) x = Return []
       \<and> hasNeighborCommits s (Some r) x = Return (False, False)
       \<and> getNextCommit_of [c3, c2, c1, c0] c2 = c3
       \<and> getPreviousCommit_of [c3, c2, c1, c0] c2 = c1
       \<and> getNextCommit_of [c3, c2, c1, c0] c3 = []
       \<and> getPreviousCommit_of [c3, c2, c1, c0] c3 = c2
       \<and> getPreviousCommit_of [c3, c2, c1, c0] c0 = []
       \<and> getNextCommit_of [c3, c2, c1, c0] c0 = c1
       \<and> getNextCommit_of [c3, c2, c1, c0] x = []
       \<and> getPreviousCommit_of [c3, c2, c1, c0] x = []
       \<and> hasNeighborCommits_of [c3, c2, c1, c0] x = (False, False)"
proof -
  from assms(2) have "c3 \<noteq> x" "c2 \<noteq> x" "c1 \<noteq> x" "c0 \<noteq> x" by auto
  with assms show ?thesis by (simp add: neighbor_defs)
qed

theorem neighbor_lookup_witness:
  "getNextCommit
     (loader (run init [Attach \<lparr>root = ''/a''\<rparr>, TimerFires,
        ReloadSettles \<lparr>root = ''/a''\<rparr>
          (Inr (Some ''main'', [''c3'', ''c2'', ''c1'', ''c0''], 4, [3, 2, 1, 0::nat]))]))
     (Some \<lparr>root = ''/a''\<rparr>) ''c3'' = Return []
   \<and> hasNeighborCommits
     (loader (run init [Attach \<lparr>root = ''/a''\<rparr>, TimerFires,
        ReloadSettles \<lparr>root = ''/a''\<rparr>
          (Inr (Some ''main'', [''c3'', ''c2'', ''c1'', ''c0''], 4, [3, 2, 1, 0::nat]))]))
     (Some \<lparr>root = ''/a''\<rparr>) ''zz'' = Return (False, False)"
proof -
  let ?s = "loader (run init [Attach \<lparr>root = ''/a''\<rparr>, TimerFires,
        ReloadSettles \<lparr>root = ''/a''\<rparr>
          (Inr (Some ''main'', [''c3'', ''c2'', ''c1'', ''c0''], 4, [3, 2, 1, 0::nat]))])"
  have d: "distinct [''c3'', ''c2'', ''c1'', ''c0'']" by simp
  have n: "''zz'' \<notin> set [''c3'', ''c2'', ''c1'', ''c0'']" by simp
  have u: "useCache ?s (root \<lparr>root = ''/a''\<rparr>)" by (simp add: exec_defs)
  have c: "commits (cache ?s) = [''c3'', ''c2'', ''c1'', ''c0'']" by (simp add: exec_defs)
  from neighbor_lookup [OF d n u c] show ?thesis by blast
qed

section \<open>Reading log entries through the cache\<close>

text \<open>For a window given by a start and a count that are not negative, \<open>slice\<close> is the window.\<close>

lemma slice_window:
  "0 \<le> start \<Longrightarrow> 0 \<le> count \<Longrightarrow> slice xs start (start + count) = take (nat count) (drop (nat start) xs)"
  unfolding slice_def Let_def
  by (auto simp: min_def max_def nat_diff_distrib nat_add_distrib)

lemma lru_get_fst: "fst (lru_get c k) = lru_peek c k"
  by (simp add: lru_get_def lru_peek_def split: option.splits)

text \<open>
  Claim C3, as stated, fails at the boundary it names. With a cached first page of exactly
  1200 entries and the request \<open>[0, 1200)\<close>, the test \<open>start + count < cache.length\<close> is
  false, and the operation awaits a live fetch although the window lies within the entry.
\<close>

theorem getLogEntries_boundary_counterexample:
  "fst (getLogEntries
     (loader (run init [Attach \<lparr>root = ''/a''\<rparr>, TimerFires,
        ReloadSettles \<lparr>root = ''/a''\<rparr> (Inr (Some ''main'', [], 1200, replicate 1200 (0::nat)))]))
     (Some \<lparr>root = ''/a''\<rparr>) False 0 1200 ''main'' None None None None)
   = Inr (Fetch (GetLogEntries \<lparr>root = ''/a''\<rparr> False 0 1200 ''main'' None None None None) ''main,,,,'')
  \<and> lru_peek (logEntries (cache (loader (run init [Attach \<lparr>root = ''/a''\<rparr>, TimerFires,
        ReloadSettles \<lparr>root = ''/a''\<rparr> (Inr (Some ''main'', [], 1200, replicate 1200 (0::nat)))]))))
       ''main,,,,'' = Some (replicate 1200 0)"
  by (simp add: exec_defs Let_def)

text \<open>
  Claim C3, amended. When the cache is usable and the \<open>logEntries\<close> map holds an entry
  \<open>E\<close> for the key of the query: if \<open>E\<close> is shorter than 1200, or \<open>start + count\<close> is
  strictly below the length of \<open>E\<close>, the slice \<open>E[start, start + count)\<close> is returned with
  no live call; otherwise, and when the map holds no entry for the key, a live fetch with
  exactly the caller's \<open>start\<close> and \<open>count\<close> is awaited, and what it answers is what the
  caller gets.
\<close>

theorem getLogEntries_read_through:
  assumes "useCache s (root r)"
    and "key = logEntryKey br (Some (case isStash of None \<Rightarrow> False | Some b \<Rightarrow> b))
                 (map_option fsPath file) line author"
    and "req = GetLogEntries r express start count br isStash file line author"
  shows "fst (getLogEntries s (Some r) express start count br isStash file line author) =
           (case lru_peek (logEntries (cache s)) key of
              None \<Rightarrow> Inr (Fetch req key)
            | Some E \<Rightarrow>
                if int (length E) < 1200 \<or> start + count < int (length E)
                then Inr (Return (slice E start (start + count)))
                else Inr (Fetch req key))
       \<and> fst (getLogEntries_resume s' key start count entries) = entries"
  using assms
  by (simp add: getLogEntries_def getLogEntries_resume_def lru_get_def lru_peek_def
      logEntriesCount_def Let_def split: option.splits)

theorem getLogEntries_read_through_witness:
  "fst (getLogEntries
     (loader (run init [Attach \<lparr>root = ''/a''\<rparr>, TimerFires,
        ReloadSettles \<lparr>root = ''/a''\<rparr> (Inr (Some ''main'', [], 1200, replicate 1200 (0::nat)))]))
     (Some \<lparr>root = ''/a''\<rparr>) False 0 10 ''main'' None None None None)
   = Inr (Return (replicate 10 0))"
proof -
  let ?s = "loader (run init [Attach \<lparr>root = ''/a''\<rparr>, TimerFires,
        ReloadSettles \<lparr>root = ''/a''\<rparr> (Inr (Some ''main'', [], 1200, replicate 1200 (0::nat)))])"
  have u: "useCache ?s (root \<lparr>root = ''/a''\<rparr>)"
    by (simp add: exec_defs)
  have k: "''main,,,,'' = logEntryKey ''main'' (Some (case None of None \<Rightarrow> False | Some b \<Rightarrow> b))
                 (map_option fsPath None) None None"
    by (simp add: logEntryKey_def)
  have p: "lru_peek (logEntries (cache ?s)) ''main,,,,'' = Some (replicate 1200 0)"
    by (simp add: exec_defs)
  from getLogEntries_read_through [OF u k refl, THEN conjunct1, of False 0 10] p
  show ?thesis
    by (simp add: slice_def)
qed

section \<open>Commit counts\<close>

lemma lru_peek_set: "0 < lru_max c \<Longrightarrow> lru_peek (lru_set c k v) k = Some v"
  by (cases "lru_max c") (simp_all add: lru_peek_def lru_set_def)

text \<open>A count other than zero that was stored on a miss is served from the cache.\<close>

lemma getCommitsCount_repeated_nonzero:
  assumes "useCache s (root r)" and "0 < lru_max (counts (cache s))" and "result \<noteq> 0"
    and "key = countKey br (case author of None \<Rightarrow> [] | Some a \<Rightarrow> a)"
  shows "fst (getCommitsCount (snd (getCommitsCount_resume s key result)) (Some r) br author)
           = Inr (Return result)"
proof -
  let ?s' = "snd (getCommitsCount_resume s key result)"
  have u: "useCache ?s' (root r)"
    using assms(1) by (auto simp: useCache_def getCommitsCount_resume_def split: if_splits)
  have "lru_peek (counts (cache ?s')) key = Some result"
    using assms(2) by (simp add: getCommitsCount_resume_def lru_peek_set)
  then have "fst (lru_get (counts (cache ?s')) key) = Some result"
    by (simp add: lru_get_fst)
  with u assms(3,4) show ?thesis
    by (auto simp: getCommitsCount_def Let_def split: prod.splits)
qed

text \<open>
  Claim C2 at a count of zero. The repository \<open>/a\<close> is active and no refresh is in flight;
  \<open>getCommitsCount\<close> for branch \<open>dev\<close> misses, the live source answers 0 and the answer is
  stored under the key \<open>dev,\<close>. The same query, repeated at once, finds the stored 0, takes
  it for a miss at \<open>if (count)\<close> and awaits the live source again.
\<close>

theorem getCommitsCount_zero_refetched:
  "lru_peek (counts (cache (loader (run init
      [Attach \<lparr>root = ''/a''\<rparr>, TimerFires,
       ReloadSettles \<lparr>root = ''/a''\<rparr> (Inr (Some ''main'', [''c0''], 1, [0::nat])),
       CallCommitsCount \<lparr>root = ''/a''\<rparr> ''dev'' None,
       CommitsCountSettles \<lparr>root = ''/a''\<rparr> ''dev,'' (Inr 0)])))) ''dev,'' = Some 0
   \<and> fst (getCommitsCount (loader (run init
      [Attach \<lparr>root = ''/a''\<rparr>, TimerFires,
       ReloadSettles \<lparr>root = ''/a''\<rparr> (Inr (Some ''main'', [''c0''], 1, [0::nat])),
       CallCommitsCount \<lparr>root = ''/a''\<rparr> ''dev'' None,
       CommitsCountSettles \<lparr>root = ''/a''\<rparr> ''dev,'' (Inr 0)])) (Some \<lparr>root = ''/a''\<rparr>) ''dev'' None)
     = Inr (Fetch (GetCommitsCount \<lparr>root = ''/a''\<rparr> ''dev'' None) ''dev,'')"
  by (simp add: exec_defs Let_def)

section \<open>Cache keys\<close>

text \<open>The decimal digits of a number determine it, and none of them is the separator.\<close>

lemma digit_inj: "a < 10 \<Longrightarrow> b < 10 \<Longrightarrow> digit a = digit b \<Longrightarrow> a = b"
  unfolding digit_def
  by (subst (asm) nth_eq_iff_index_eq) simp_all

lemma digit_is_decimal: "d < 10 \<Longrightarrow> digit d \<in> set ''0123456789''"
  unfolding digit_def by (rule nth_mem) simp

lemma digit_not_comma: "d < 10 \<Longrightarrow> digit d \<noteq> CHR '',''"
  using digit_is_decimal [of d] by auto

lemma string_of_nat_not_Nil: "string_of_nat n \<noteq> []"
  by (subst string_of_nat.simps) simp

lemma string_of_nat_no_comma: "CHR '','' \<notin> set (string_of_nat n)"
proof (induction n rule: string_of_nat.induct)
  case (1 n)
  show ?case
  proof (cases "n < 10")
    case True
    then show ?thesis
      by (subst string_of_nat.simps) (simp add: digit_not_comma [symmetric])
  next
    case False
    with 1 show ?thesis
      using digit_not_comma [of "n mod 10"]
      by (subst string_of_nat.simps) auto
  qed
qed

lemma string_of_nat_inj: "string_of_nat n = string_of_nat m \<Longrightarrow> n = m"
proof (induction n arbitrary: m rule: string_of_nat.induct)
  case (1 n)
  show ?case
  proof (cases "n < 10")
    case small: True
    have m: "m < 10"
    proof (rule ccontr)
      assume "\<not> m < 10"
      then have "string_of_nat m = string_of_nat (m div 10) @ [digit (m mod 10)]"
        by (subst string_of_nat.simps) simp
      moreover have "string_of_nat n = [digit n]"
        using small by (subst string_of_nat.simps) simp
      ultimately show False
        using "1.prems" string_of_nat_not_Nil [of "m div 10"] by simp
    qed
    have "string_of_nat n = [digit n]" "string_of_nat m = [digit m]"
      using small m by (subst string_of_nat.simps, simp)+
    with "1.prems" small m show ?thesis
      by (simp add: digit_inj)
  next
    case big: False
    have n: "string_of_nat n = string_of_nat (n div 10) @ [digit (n mod 10)]"
      using big by (subst string_of_nat.simps) simp
    have m: "\<not> m < 10"
    proof
      assume "m < 10"
      then have "string_of_nat m = [digit m]"
        by (subst string_of_nat.simps) simp
      with n "1.prems" string_of_nat_not_Nil [of "n div 10"] show False
        by simp
    qed
    then have "string_of_nat m = string_of_nat (m div 10) @ [digit (m mod 10)]"
      by (subst string_of_nat.simps) simp
    with n "1.prems" have e: "string_of_nat (n div 10) = string_of_nat (m div 10)"
      and d: "digit (n mod 10) = digit (m mod 10)"
      by simp_all
    from "1.IH" [OF big e] have "n div 10 = m div 10" .
    moreover from d have "n mod 10 = m mod 10"
      by (simp add: digit_inj)
    ultimately show ?thesis
      by (metis div_mult_mod_eq)
  qed
qed

lemma split_at_separator:
  "c \<notin> set a \<Longrightarrow> c \<notin> set a' \<Longrightarrow> a @ c # x = a' @ c # x' \<Longrightarrow> a = a' \<and> x = x'"
proof (induction a arbitrary: a')
  case Nil
  then show ?case by (cases a') auto
next
  case (Cons y ys)
  then show ?case by (cases a') auto
qed


lemma countKey_inj:
  assumes "CHR '','' \<notin> set b" and "CHR '','' \<notin> set b'" and "countKey b a = countKey b' a'"
  shows "b = b' \<and> a = a'"
  using split_at_separator [OF assms(1,2), of a a'] assms(3) by (simp add: countKey_def)

lemma logEntryKey_inj:
  assumes b: "CHR '','' \<notin> set b" "CHR '','' \<notin> set b'"
    and f: "CHR '','' \<notin> set (case f of None \<Rightarrow> [] | Some p \<Rightarrow> p)"
           "CHR '','' \<notin> set (case f' of None \<Rightarrow> [] | Some p \<Rightarrow> p)"
    and eq: "logEntryKey b st f l au = logEntryKey b' st' f' l' au'"
  shows "b = b' \<and> (st = Some True) = (st' = Some True)
       \<and> (case f of None \<Rightarrow> [] | Some p \<Rightarrow> p) = (case f' of None \<Rightarrow> [] | Some p \<Rightarrow> p)
       \<and> l = l'
       \<and> (case au of None \<Rightarrow> [] | Some a \<Rightarrow> a) = (case au' of None \<Rightarrow> [] | Some a \<Rightarrow> a)"
proof -
  let ?S = "\<lambda>st. if st = Some True then ''1'' else []"
  let ?F = "\<lambda>f. case f of None \<Rightarrow> [] | Some p \<Rightarrow> p"
  let ?L = "\<lambda>l. case l of None \<Rightarrow> [] | Some n \<Rightarrow> string_of_nat n"
  let ?A = "\<lambda>au. case au of None \<Rightarrow> [] | Some a \<Rightarrow> a"
  have S: "CHR '','' \<notin> set (?S st)" "CHR '','' \<notin> set (?S st')"
    by simp_all
  have L: "CHR '','' \<notin> set (?L l)" "CHR '','' \<notin> set (?L l')"
    by (simp_all add: string_of_nat_no_comma split: option.splits)
  from eq have 1: "b @ CHR '','' # (?S st @ CHR '','' # ?F f @ CHR '','' # ?L l @ CHR '','' # ?A au)
                 = b' @ CHR '','' # (?S st' @ CHR '','' # ?F f' @ CHR '','' # ?L l' @ CHR '','' # ?A au')"
    by (simp add: logEntryKey_def)
  from split_at_separator [OF b 1]
  have bb: "b = b'"
    and 2: "?S st @ CHR '','' # (?F f @ CHR '','' # ?L l @ CHR '','' # ?A au)
          = ?S st' @ CHR '','' # (?F f' @ CHR '','' # ?L l' @ CHR '','' # ?A au')"
    by simp_all
  from split_at_separator [OF S 2]
  have ss: "?S st = ?S st'"
    and 3: "?F f @ CHR '','' # (?L l @ CHR '','' # ?A au) = ?F f' @ CHR '','' # (?L l' @ CHR '','' # ?A au')"
    by simp_all
  from split_at_separator [OF f 3]
  have ff: "?F f = ?F f'" and 4: "?L l @ CHR '','' # ?A au = ?L l' @ CHR '','' # ?A au'"
    by simp_all
  from split_at_separator [OF L 4]
  have ll: "?L l = ?L l'" and aa: "?A au = ?A au'"
    by simp_all
  from ss have st: "(st = Some True) = (st' = Some True)"
    by (simp split: if_splits)
  from ll have "l = l'"
    using string_of_nat_not_Nil string_of_nat_inj
    by (cases l; cases l') (auto dest: sym)
  with bb st ff aa show ?thesis by simp
qed

text \<open>
  Claim C4, as stated, fails. The keys are concatenations with a comma between the fields,
  so a comma inside a field moves the boundary: the pairs \<open>("a,b", "")\<close> and
  \<open>("a", "b,")\<close> have the same count key. And the key builder maps an omitted stash flag
  and a flag that is false to the same marker, an omitted file or author and an empty one
  to the same text, so supplying such a field gives the key of the tuple without it.
\<close>

theorem keys_collide_counterexample:
  "countKey ''a,b'' [] = countKey ''a'' ''b,''
   \<and> (''a,b'', []) \<noteq> (''a'', ''b,'')
   \<and> logEntryKey ''main'' (Some False) None None None = logEntryKey ''main'' None None None None
   \<and> logEntryKey ''main'' None (Some []) None None = logEntryKey ''main'' None None None None
   \<and> logEntryKey ''main'' None None None (Some []) = logEntryKey ''main'' None None None None"
  by (simp add: countKey_def logEntryKey_def)

text \<open>
  Claim C4, amended. \<open>countKey\<close> and \<open>logEntryKey\<close> are functions of their arguments
  alone. On tuples whose branch name and file path contain no comma, two tuples have the
  same key exactly when they agree on the branch, on whether the stash flag is true, on the
  file path, on the line and on the author, an omitted file path or author counting as the
  empty one. In particular a stash flag that is true, a line number, a file path that is
  not empty and an author that is not empty each give a key different from the key of the
  tuple without that field.
\<close>

theorem keys_injective:
  assumes "CHR '','' \<notin> set b" and "CHR '','' \<notin> set b'"
    and "CHR '','' \<notin> set (case f of None \<Rightarrow> [] | Some p \<Rightarrow> p)"
    and "CHR '','' \<notin> set (case f' of None \<Rightarrow> [] | Some p \<Rightarrow> p)"
  shows "(countKey b a = countKey b' a') = (b = b' \<and> a = a')
       \<and> (logEntryKey b st f l au = logEntryKey b' st' f' l' au') =
           (b = b' \<and> (st = Some True) = (st' = Some True)
            \<and> (case f of None \<Rightarrow> [] | Some p \<Rightarrow> p) = (case f' of None \<Rightarrow> [] | Some p \<Rightarrow> p)
            \<and> l = l'
            \<and> (case au of None \<Rightarrow> [] | Some x \<Rightarrow> x) = (case au' of None \<Rightarrow> [] | Some x \<Rightarrow> x))
       \<and> logEntryKey b (Some True) f l au \<noteq> logEntryKey b None f l au
       \<and> logEntryKey b st f (Some n) au \<noteq> logEntryKey b st f None au
       \<and> logEntryKey b st (Some (c # p)) l au \<noteq> logEntryKey b st None l au
       \<and> logEntryKey b st f l (Some (c # p)) \<noteq> logEntryKey b st f l None"
proof -
  have 1: "(countKey b a = countKey b' a') = (b = b' \<and> a = a')"
    using countKey_inj [OF assms(1,2)] by blast
  have 2: "(logEntryKey b st f l au = logEntryKey b' st' f' l' au') =
           (b = b' \<and> (st = Some True) = (st' = Some True)
            \<and> (case f of None \<Rightarrow> [] | Some p \<Rightarrow> p) = (case f' of None \<Rightarrow> [] | Some p \<Rightarrow> p)
            \<and> l = l'
            \<and> (case au of None \<Rightarrow> [] | Some x \<Rightarrow> x) = (case au' of None \<Rightarrow> [] | Some x \<Rightarrow> x))"
    (is "?lhs = ?rhs")
  proof
    assume ?lhs
    from logEntryKey_inj [OF assms this] show ?rhs .
  next
    assume ?rhs
    then show ?lhs by (simp add: logEntryKey_def)
  qed
  have 3: "logEntryKey b (Some True) f l au \<noteq> logEntryKey b None f l au"
    by (simp add: logEntryKey_def)
  have 4: "logEntryKey b st f (Some n) au \<noteq> logEntryKey b st f None au"
    by (simp add: logEntryKey_def string_of_nat_not_Nil)
  have 5: "logEntryKey b st (Some (c # p)) l au \<noteq> logEntryKey b st None l au"
    by (simp add: logEntryKey_def)
  have 6: "logEntryKey b st f l (Some (c # p)) \<noteq> logEntryKey b st f l None"
    by (simp add: logEntryKey_def)
  from 1 2 3 4 5 6 show ?thesis by blast
qed

theorem keys_injective_witness:
  "CHR '','' \<notin> set ''main'' \<and> CHR '','' \<notin> set ''dev''
   \<and> countKey ''main'' ''ann'' \<noteq> countKey ''dev'' ''ann''
   \<and> logEntryKey ''main'' None (Some ''src/a.ts'') (Some 12) None
       \<noteq> logEntryKey ''main'' None (Some ''src/a.ts'') (Some 120) None
   \<and> logEntryKey ''main'' None (Some ''src/a.ts'') (Some 12) None
       \<noteq> logEntryKey ''main'' None (Some ''src/a.ts'') None None"
proof -
  have b: "CHR '','' \<notin> set ''main''" "CHR '','' \<notin> set ''dev''" by simp_all
  have f: "CHR '','' \<notin> set (case Some ''src/a.ts'' of None \<Rightarrow> [] | Some p \<Rightarrow> p)" by simp
  from keys_injective [OF b f f, of "''ann''" "''ann''" None "Some 12" None None "Some 120" None]
  have "countKey ''main'' ''ann'' \<noteq> countKey ''dev'' ''ann''" by simp
  moreover
  from keys_injective [OF b(1) b(1) f f, of _ _ None "Some 12" None None "Some 120" None]
  have "logEntryKey ''main'' None (Some ''src/a.ts'') (Some 12) None
       \<noteq> logEntryKey ''main'' None (Some ''src/a.ts'') (Some 120) None" by simp
  moreover
  from keys_injective [OF b(1) b(1) f f, of _ _ None "Some 12" None None None None]
  have "logEntryKey ''main'' None (Some ''src/a.ts'') (Some 12) None
       \<noteq> logEntryKey ''main'' None (Some ''src/a.ts'') None None" by simp
  ultimately show ?thesis using b by blast
qed

section \<open>The staleness mask\<close>

text \<open>When the cache is not usable for a repository, every operation of the gate delegates.\<close>

lemma bypass_delegates:
  assumes "\<not> useCache s (root r)"
  shows "getLogEntries s (Some r) express start count br isStash file line author
           = (Inr (Delegate (GetLogEntries r express start count br isStash file line author)), s)"
    and "getCommitsCount s (Some r) br author = (Inr (Delegate (GetCommitsCount r br author)), s)"
    and "getCurrentBranch s (Some r) = Delegate (GetCurrentBranch r)"
    and "getNextCommit s (Some r) ref = Delegate (GetCommits r None)"
    and "getPreviousCommit s (Some r) ref = Delegate (GetCommits r None)"
    and "hasNeighborCommits s (Some r) ref = Delegate (GetCommits r None)"
  using assms
  by (simp_all add: getLogEntries_def getCommitsCount_def getCurrentBranch_def neighbor_defs)

lemma useCache_frame:
  "repo s' = repo s \<Longrightarrow> updating s' = updating s \<Longrightarrow> useCache s' rt = useCache s rt"
  by (simp add: useCache_def)

lemma getLogEntries_frame:
  "repo (snd (getLogEntries s rp express start count br isStash file line author)) = repo s"
  "updating (snd (getLogEntries s rp express start count br isStash file line author)) = updating s"
  by (simp_all add: getLogEntries_def Let_def split: option.splits prod.splits)

lemma getCommitsCount_frame:
  "repo (snd (getCommitsCount s rp br author)) = repo s"
  "updating (snd (getCommitsCount s rp br author)) = updating s"
  by (simp_all add: getCommitsCount_def Let_def split: option.splits prod.splits)

lemma getLogEntries_resume_frame:
  "repo (fst (snd (getLogEntries_resume s key start count entries))) = repo s"
  "updating (fst (snd (getLogEntries_resume s key start count entries))) = updating s"
  by (simp_all add: getLogEntries_resume_def)

lemma getLogEntries_warm_frame:
  "repo (getLogEntries_warm s key answer) = repo s"
  "updating (getLogEntries_warm s key answer) = updating s"
  by (simp_all add: getLogEntries_warm_def split: sum.splits)

lemma getCommitsCount_resume_frame:
  "repo (snd (getCommitsCount_resume s key result)) = repo s"
  "updating (snd (getCommitsCount_resume s key result)) = updating s"
  by (simp_all add: getCommitsCount_resume_def)

lemma step_keeps_mask:
  assumes "\<not> useCache (loader sys) rt" and "\<not> reload_succeeds_for rt ev"
  shows "\<not> useCache (loader (step sys ev)) rt"
proof (cases ev)
  case (Attach r)
  with assms show ?thesis
    by (auto simp: useCache_def updateRepo_def updateCaches_def split: if_splits)
next
  case FsNotify
  with assms show ?thesis
    by (auto simp: useCache_def updateCaches_def split: option.splits)
next
  case TimerFires
  with assms show ?thesis
    by (auto simp: useCache_def split: option.splits if_splits)
next
  case (ReloadSettles r answer)
  with assms show ?thesis
    by (auto simp: useCache_def updateCaches_done_def reload_succeeds_for_def Let_def
        split: sum.splits if_splits)
next
  case (CallLogEntries r express start count br isStash fl ln author)
  have "useCache (snd (getLogEntries (loader sys) (Some r) express start count br isStash fl
            ln author)) rt = useCache (loader sys) rt"
    by (rule useCache_frame) (rule getLogEntries_frame)+
  with assms CallLogEntries show ?thesis
    by (auto split: prod.splits sum.splits gate.splits)
next
  case (LogEntriesSettles r key start count answer)
  have "useCache a rt = useCache (loader sys) rt"
    if "getLogEntries_resume (loader sys) key start count entries = (x, a, b)" for entries x a b
    using that getLogEntries_resume_frame [of "loader sys" key start count entries]
    by (simp add: useCache_def)
  with assms LogEntriesSettles show ?thesis
    by (auto simp: Let_def split: prod.splits sum.splits)
next
  case (WarmSettles r key answer)
  have "useCache (getLogEntries_warm (loader sys) key answer) rt = useCache (loader sys) rt"
    by (rule useCache_frame) (rule getLogEntries_warm_frame)+
  with assms WarmSettles show ?thesis
    by auto
next
  case (CallCommitsCount r br author)
  have "useCache (snd (getCommitsCount (loader sys) (Some r) br author)) rt
          = useCache (loader sys) rt"
    by (rule useCache_frame) (rule getCommitsCount_frame)+
  with assms CallCommitsCount show ?thesis
    by (auto split: prod.splits sum.splits gate.splits)
next
  case (CommitsCountSettles r key answer)
  have "useCache (snd (getCommitsCount_resume (loader sys) key result)) rt
          = useCache (loader sys) rt" for result
    by (rule useCache_frame) (rule getCommitsCount_resume_frame)+
  with assms CommitsCountSettles show ?thesis
    by (auto simp: Let_def split: sum.splits)
qed

lemma run_keeps_mask:
  "\<not> useCache (loader sys) rt \<Longrightarrow> \<forall>ev \<in> set evs. \<not> reload_succeeds_for rt ev
     \<Longrightarrow> \<not> useCache (loader (run sys evs)) rt"
  unfolding run_def
  by (induction evs arbitrary: sys) (simp_all add: step_keeps_mask)

lemma attach_raises_flag:
  "map_option root (repo s) \<noteq> Some (root r) \<Longrightarrow> updating (updateRepo s r)"
  by (auto simp: updateRepo_def updateCaches_def)

text \<open>
  What a switch does at once, and how long the mask then holds. A call of \<open>updateRepo\<close>
  that switches to a repository \<open>r\<close> with another root path makes \<open>r\<close> active, clears
  the cache, creates the watcher, raises the refresh flag and arms the debounce timer before
  it returns. Through every sequence of events in which no bulk reload for that root path
  settles successfully, the cache stays unusable for \<open>r\<close> and the six operations delegate.
\<close>

lemma attach_effects:
  assumes "map_option root (repo s) \<noteq> Some (root r)"
  shows "updateRepo s r
           = s\<lparr>cache := clear (cache s), fsWatcher := Some r, repo := Some r,
               updating := True, updateDelay := Some r\<rparr>"
  using assms by (auto simp: updateRepo_def updateCaches_def)

lemma mask_holds_while_no_reload_settles:
  assumes "map_option root (repo (loader sys)) \<noteq> Some (root r)"
    and "\<forall>ev \<in> set evs. \<not> reload_succeeds_for (root r) ev"
    and "s = loader (run (step sys (Attach r)) evs)"
  shows "\<not> useCache s (root r)
       \<and> fst (getLogEntries s (Some r) express start count br isStash file line author)
           = Inr (Delegate (GetLogEntries r express start count br isStash file line author))
       \<and> fst (getCommitsCount s (Some r) br author)
           = Inr (Delegate (GetCommitsCount r br author))
       \<and> getCurrentBranch s (Some r) = Delegate (GetCurrentBranch r)
       \<and> getNextCommit s (Some r) ref = Delegate (GetCommits r None)
       \<and> getPreviousCommit s (Some r) ref = Delegate (GetCommits r None)
       \<and> hasNeighborCommits s (Some r) ref = Delegate (GetCommits r None)"
proof -
  have "updating (loader (step sys (Attach r)))"
    using assms(1) by (simp add: attach_raises_flag)
  then have "\<not> useCache (loader (step sys (Attach r))) (root r)"
    by (simp add: useCache_def)
  with assms(2,3) have masked: "\<not> useCache s (root r)"
    by (simp add: run_keeps_mask)
  from masked bypass_delegates [OF masked] show ?thesis
    by simp
qed

text \<open>
  Claim C10 at an execution where it fails. A bulk reload is in flight for \<open>/a\<close> when the
  active repository is switched to \<open>/b\<close> and then back to \<open>/a\<close>. The switch back makes
  \<open>/a\<close> active, raises the flag and arms the timer, all before it returns. Then the reload
  started before the switches settles: its callback finds equal root paths and clears the
  flag. The timer armed by the switch has not fired and the reload it schedules has not
  started, yet \<open>getCurrentBranch\<close>, \<open>getPreviousCommit\<close> and \<open>getCommitsCount\<close> for \<open>/a\<close>
  answer from the cache without a live call.
\<close>

theorem reload_before_reattach_unmasks:
  "repo (loader (run init
       [Attach \<lparr>root = ''/a''\<rparr>, TimerFires, Attach \<lparr>root = ''/b''\<rparr>,
        Attach \<lparr>root = ''/a''\<rparr>] :: nat System)) = Some \<lparr>root = ''/a''\<rparr>
   \<and> updating (loader (run init
       [Attach \<lparr>root = ''/a''\<rparr>, TimerFires, Attach \<lparr>root = ''/b''\<rparr>,
        Attach \<lparr>root = ''/a''\<rparr>] :: nat System))
   \<and> updateDelay (loader (run init
       [Attach \<lparr>root = ''/a''\<rparr>, TimerFires, Attach \<lparr>root = ''/b''\<rparr>,
        Attach \<lparr>root = ''/a''\<rparr>] :: nat System)) = Some \<lparr>root = ''/a''\<rparr>
   \<and> updateDelay (loader (run init
       [Attach \<lparr>root = ''/a''\<rparr>, TimerFires, Attach \<lparr>root = ''/b''\<rparr>,
        Attach \<lparr>root = ''/a''\<rparr>,
        ReloadSettles \<lparr>root = ''/a''\<rparr> (Inr (Some ''main'', [''c1'', ''c0''], 2, [1, 0::nat]))]))
     = Some \<lparr>root = ''/a''\<rparr>
   \<and> inflight (run init
       [Attach \<lparr>root = ''/a''\<rparr>, TimerFires, Attach \<lparr>root = ''/b''\<rparr>,
        Attach \<lparr>root = ''/a''\<rparr>,
        ReloadSettles \<lparr>root = ''/a''\<rparr> (Inr (Some ''main'', [''c1'', ''c0''], 2, [1, 0::nat]))])
     = []
   \<and> getCurrentBranch (loader (run init
       [Attach \<lparr>root = ''/a''\<rparr>, TimerFires, Attach \<lparr>root = ''/b''\<rparr>,
        Attach \<lparr>root = ''/a''\<rparr>,
        ReloadSettles \<lparr>root = ''/a''\<rparr> (Inr (Some ''main'', [''c1'', ''c0''], 2, [1, 0::nat]))]))
       (Some \<lparr>root = ''/a''\<rparr>) = Return ''main''
   \<and> getPreviousCommit (loader (run init
       [Attach \<lparr>root = ''/a''\<rparr>, TimerFires, Attach \<lparr>root = ''/b''\<rparr>,
        Attach \<lparr>root = ''/a''\<rparr>,
        ReloadSettles \<lparr>root = ''/a''\<rparr> (Inr (Some ''main'', [''c1'', ''c0''], 2, [1, 0::nat]))]))
       (Some \<lparr>root = ''/a''\<rparr>) ''c1'' = Return ''c0''
   \<and> fst (getCommitsCount (loader (run init
       [Attach \<lparr>root = ''/a''\<rparr>, TimerFires, Attach \<lparr>root = ''/b''\<rparr>,
        Attach \<lparr>root = ''/a''\<rparr>,
        ReloadSettles \<lparr>root = ''/a''\<rparr> (Inr (Some ''main'', [''c1'', ''c0''], 2, [1, 0::nat]))]))
       (Some \<lparr>root = ''/a''\<rparr>) ''main'' None) = Inr (Return 2)"
  by (simp add: exec_defs Let_def getCurrentBranch_def neighbor_defs)

text \<open>
  Claim C6 at an execution where it fails. Repository \<open>/a\<close> is attached and the debounce
  timer fires, so a first bulk reload is in flight. A change notification arrives: the flag
  is raised and a new timer is armed. Then the first reload settles; its callback finds the
  active repository unchanged, fills the cache and clears the flag. The timer of the
  notification is still armed and its reload has not started, yet \<open>getCurrentBranch\<close>,
  \<open>getNextCommit\<close> and \<open>getLogEntries\<close> for \<open>/a\<close> answer from the cache without a live
  call.
\<close>

theorem earlier_reload_unmasks_pending_refresh:
  "updateDelay (loader (run init
       [Attach \<lparr>root = ''/a''\<rparr>, TimerFires, FsNotify,
        ReloadSettles \<lparr>root = ''/a''\<rparr> (Inr (Some ''main'', [''c1'', ''c0''], 2, [1, 0::nat]))]))
     = Some \<lparr>root = ''/a''\<rparr>
   \<and> inflight (run init
       [Attach \<lparr>root = ''/a''\<rparr>, TimerFires, FsNotify,
        ReloadSettles \<lparr>root = ''/a''\<rparr> (Inr (Some ''main'', [''c1'', ''c0''], 2, [1, 0::nat]))])
     = []
   \<and> getCurrentBranch (loader (run init
       [Attach \<lparr>root = ''/a''\<rparr>, TimerFires, FsNotify,
        ReloadSettles \<lparr>root = ''/a''\<rparr> (Inr (Some ''main'', [''c1'', ''c0''], 2, [1, 0::nat]))]))
       (Some \<lparr>root = ''/a''\<rparr>) = Return ''main''
   \<and> getNextCommit (loader (run init
       [Attach \<lparr>root = ''/a''\<rparr>, TimerFires, FsNotify,
        ReloadSettles \<lparr>root = ''/a''\<rparr> (Inr (Some ''main'', [''c1'', ''c0''], 2, [1, 0::nat]))]))
       (Some \<lparr>root = ''/a''\<rparr>) ''c0'' = Return ''c1''
   \<and> fst (getLogEntries (loader (run init
       [Attach \<lparr>root = ''/a''\<rparr>, TimerFires, FsNotify,
        ReloadSettles \<lparr>root = ''/a''\<rparr> (Inr (Some ''main'', [''c1'', ''c0''], 2, [1, 0::nat]))]))
       (Some \<lparr>root = ''/a''\<rparr>) False 0 10 ''main'' None None None None) = Inr (Return [1, 0])"
  by (simp add: exec_defs Let_def getCurrentBranch_def neighbor_defs slice_def)

section \<open>Background fetches that fail\<close>




section \<open>Data of a repository that is no longer active\<close>

text \<open>
  Claim C1 at an execution where it fails. Repository \<open>/a\<close> is active with a usable cache;
  \<open>getLogEntries\<close> for the first ten entries of branch \<open>dev\<close> misses and schedules the
  background fetch of the full first page of \<open>/a\<close>. The active repository is switched to
  \<open>/b\<close>, which clears the cache. Then the background fetch settles and stores the entries
  of \<open>/a\<close> under the key \<open>dev,,,,\<close>, with no test of the active repository. After the
  first bulk reload of \<open>/b\<close>, \<open>getLogEntries\<close> for branch \<open>dev\<close> of \<open>/b\<close> returns these
  entries of \<open>/a\<close> from the cache.
\<close>

theorem warming_writes_after_switch:
  "repo (loader (run init
       [Attach \<lparr>root = ''/a''\<rparr>, TimerFires,
        ReloadSettles \<lparr>root = ''/a''\<rparr> (Inr (Some ''main'', [''a1''], 1, [1::nat])),
        CallLogEntries \<lparr>root = ''/a''\<rparr> False 0 10 ''dev'' None None None None,
        LogEntriesSettles \<lparr>root = ''/a''\<rparr> ''dev,,,,'' 0 10 (Inr [5, 4]),
        Attach \<lparr>root = ''/b''\<rparr>,
        WarmSettles \<lparr>root = ''/a''\<rparr> ''dev,,,,'' (Inr [5, 4, 3])])) = Some \<lparr>root = ''/b''\<rparr>
   \<and> lru_peek (logEntries (cache (loader (run init
       [Attach \<lparr>root = ''/a''\<rparr>, TimerFires,
        ReloadSettles \<lparr>root = ''/a''\<rparr> (Inr (Some ''main'', [''a1''], 1, [1::nat])),
        CallLogEntries \<lparr>root = ''/a''\<rparr> False 0 10 ''dev'' None None None None,
        LogEntriesSettles \<lparr>root = ''/a''\<rparr> ''dev,,,,'' 0 10 (Inr [5, 4]),
        Attach \<lparr>root = ''/b''\<rparr>,
        WarmSettles \<lparr>root = ''/a''\<rparr> ''dev,,,,'' (Inr [5, 4, 3])])))) ''dev,,,,''
     = Some [5, 4, 3]
   \<and> fst (getLogEntries (loader (run init
       [Attach \<lparr>root = ''/a''\<rparr>, TimerFires,
        ReloadSettles \<lparr>root = ''/a''\<rparr> (Inr (Some ''main'', [''a1''], 1, [1::nat])),
        CallLogEntries \<lparr>root = ''/a''\<rparr> False 0 10 ''dev'' None None None None,
        LogEntriesSettles \<lparr>root = ''/a''\<rparr> ''dev,,,,'' 0 10 (Inr [5, 4]),
        Attach \<lparr>root = ''/b''\<rparr>,
        WarmSettles \<lparr>root = ''/a''\<rparr> ''dev,,,,'' (Inr [5, 4, 3]),
        TimerFires,
        ReloadSettles \<lparr>root = ''/b''\<rparr> (Inr (Some ''main'', [''b1''], 1, [9]))]))
       (Some \<lparr>root = ''/b''\<rparr>) False 0 10 ''dev'' None None None None)
     = Inr (Return [5, 4, 3])"
  by (simp add: exec_defs Let_def slice_def)

end
